theory Spec2Isabelle
  imports Complex_Main
begin

section \<open>The control script \<open>wifi_analysis_and_control.py\<close>\<close>

text \<open>
  The script is one \<open>try\<close>/\<open>except\<close>/\<open>else\<close>/\<open>finally\<close> statement around a
  \<open>while True\<close> loop that talks to the simulator through \<open>msgInterface\<close>. The model
  below follows it line by line. Python floats are modelled as \<^typ>\<open>real\<close> (finite
  values with exact arithmetic; rounding, infinities and NaN are outside the model), the
  station identifier as \<^typ>\<open>int\<close>. Console output is left out, except the line that
  reports a freshly computed window mean. What the simulator does is an input: one
  \<open>iteration_env\<close> for each pass through the loop.
\<close>

subsection \<open>Data\<close>

text \<open>The structure returned by \<open>msgInterface.GetCpp2PyStruct()\<close> (lines 110 to 120).\<close>

record wifi_data =
  pos_x :: real
  pos_y :: real
  distance :: real
  dl_tp :: real
  ul_tp :: real
  get_ApTx :: real
  sta_id :: int
  now_sec :: real

text \<open>A value stored in a \<open>data_point\<close> dictionary, and the dictionary itself, with its
  keys in insertion order.\<close>

datatype cell = FloatCell real | IntCell int

type_synonym data_point = "(string \<times> cell) list"

text \<open>A CSV file: the header line and the rows; an absent value is \<open>None\<close>.\<close>

type_synonym csv_table = "string list \<times> cell option list list"

text \<open>The script's variables (lines 83 to 86).\<close>

record loop_state =
  data_store :: "data_point list"
  prev_now_sec :: real
  current_dl_values :: "real list"
  prev_mean_dl :: "real option"

text \<open>\<open>ChannelError\<close> stands for any exception derived from \<open>Exception\<close> that a call on
  \<open>msgInterface\<close> raises; \<open>KeyboardInterrupt\<close> is the cancellation request, which derives
  from \<open>BaseException\<close> only.\<close>

datatype py_exception = ZeroDivisionError | ChannelError | KeyboardInterrupt

datatype call =
  PyRecvBegin | PyGetFinished | GetCpp2PyStruct | PyRecvEnd
  | PySendBegin | GetPy2CppStruct | PySendEnd

text \<open>What the simulator side does during one pass through the loop: the finish flag, the
  structure it published, and the call (if any) that raises, with the exception raised.\<close>

record iteration_env =
  finished :: bool
  cpp2py :: wifi_data
  raises :: "(call \<times> py_exception) option"

text \<open>The observable actions of the script, in program order.\<close>

datatype event =
  Call call
  | MeanDL real real
  | Append data_point
  | Py2Cpp real
  | ToCsv csv_table
  | SysExit nat
  | DelExp

datatype outcome =
  Continue loop_state
  | Break loop_state
  | Raised py_exception loop_state
  | Blocked loop_state

datatype exit_status = ExitCode nat | Uncaught py_exception | NeverExits

subsection \<open>Lines 83 to 86: initial values\<close>

definition initial_state :: loop_state where
  "initial_state =
     \<lparr>data_store = [], prev_now_sec = - 1, current_dl_values = [], prev_mean_dl = None\<rparr>"

subsection \<open>Calls on the message interface\<close>

definition raised_by :: "iteration_env \<Rightarrow> call \<Rightarrow> py_exception option" where
  "raised_by env c =
     (case raises env of
        None \<Rightarrow> None
      | Some (c', e) \<Rightarrow> if c' = c then Some e else None)"

text \<open>A run of consecutive calls stops at the first one that raises.\<close>

fun calls :: "iteration_env \<Rightarrow> call list \<Rightarrow> event list \<times> py_exception option" where
  "calls env [] = ([], None)"
| "calls env (c # cs) =
     (case raised_by env c of
        Some e \<Rightarrow> ([Call c], Some e)
      | None \<Rightarrow> (case calls env cs of (es, r) \<Rightarrow> (Call c # es, r)))"

text \<open>Lines 94 to 122. \<open>PyGetFinished\<close> is called twice, once for the status line and
  once for the test; on a finish signal the loop is left by \<open>break\<close>. The result is
  \<open>None\<close> for the finish signal and the structure read otherwise.\<close>

definition recv_phase :: "iteration_env \<Rightarrow> event list \<times> (py_exception + wifi_data option)" where
  "recv_phase env =
     (case calls env [PyRecvBegin, PyGetFinished, PyGetFinished] of
        (es, Some e) \<Rightarrow> (es, Inl e)
      | (es, None) \<Rightarrow>
          if finished env then (es, Inr None)
          else (case calls env [GetCpp2PyStruct, PyRecvEnd] of
                  (es', Some e) \<Rightarrow> (es @ es', Inl e)
                | (es', None) \<Rightarrow> (es @ es', Inr (Some (cpp2py env)))))"

subsection \<open>Lines 143 to 192: window mean, directive, record\<close>

text \<open>Python's \<open>/\<close> of a float by an \<open>int\<close> raises on a zero divisor.\<close>

definition py_truediv :: "real \<Rightarrow> nat \<Rightarrow> py_exception + real" where
  "py_truediv a n = (if n = 0 then Inl ZeroDivisionError else Inr (a / real n))"

text \<open>Lines 146 to 157.\<close>

definition window_update ::
  "loop_state \<Rightarrow> wifi_data \<Rightarrow> py_exception + (event list \<times> loop_state)" where
  "window_update st d =
     (let r1 =
        (if now_sec d \<noteq> prev_now_sec st then
           (case (if current_dl_values st \<noteq> [] then
                    (case py_truediv (sum_list (current_dl_values st))
                                     (length (current_dl_values st)) of
                       Inl e \<Rightarrow> Inl e
                     | Inr m \<Rightarrow> Inr ([MeanDL (prev_now_sec st) m],
                                     st\<lparr>prev_mean_dl := Some m\<rparr>))
                  else Inr ([], st)) of
              Inl e \<Rightarrow> Inl e
            | Inr (es, st1) \<Rightarrow>
                Inr (es, st1\<lparr>prev_now_sec := now_sec d, current_dl_values := []\<rparr>))
         else Inr ([], st))
      in case r1 of
           Inl e \<Rightarrow> Inl e
         | Inr (es, st2) \<Rightarrow>
             Inr (es, st2\<lparr>current_dl_values := current_dl_values st2 @ [dl_tp d]\<rparr>))"

text \<open>Lines 143 and 160 to 164: the value of \<open>set_ApTx\<close>.\<close>

definition set_ApTx :: "real option \<Rightarrow> real" where
  "set_ApTx pm =
     (case pm of
        None \<Rightarrow> 20
      | Some m \<Rightarrow> max 1 (min 30 (30 - 30 * m / 100)))"

text \<open>Lines 181 to 191: the dictionary literal, keys in the order written.\<close>

definition data_point :: "wifi_data \<Rightarrow> real \<Rightarrow> data_point" where
  "data_point d v =
     [(''pos_x'', FloatCell (pos_x d)),
      (''pos_y'', FloatCell (pos_y d)),
      (''distance'', FloatCell (distance d)),
      (''dl_tp'', FloatCell (dl_tp d)),
      (''ul_tp'', FloatCell (ul_tp d)),
      (''get_ApTx'', FloatCell (get_ApTx d)),
      (''sta_id'', IntCell (sta_id d)),
      (''now_sec'', FloatCell (now_sec d)),
      (''set_ApTx'', FloatCell v)]"

text \<open>Lines 143 to 192 together; the result also carries the directive.\<close>

definition analyse ::
  "loop_state \<Rightarrow> wifi_data \<Rightarrow> py_exception + (event list \<times> real \<times> loop_state)" where
  "analyse st d =
     (case window_update st d of
        Inl e \<Rightarrow> Inl e
      | Inr (es, st1) \<Rightarrow>
          (let v = set_ApTx (prev_mean_dl st1);
               dp = data_point d v
           in Inr (es @ [Append dp], v, st1\<lparr>data_store := data_store st1 @ [dp]\<rparr>)))"

subsection \<open>Lines 196 to 201: the send phase\<close>

definition send_phase :: "iteration_env \<Rightarrow> real \<Rightarrow> event list \<times> py_exception option" where
  "send_phase env v =
     (case calls env [PySendBegin, GetPy2CppStruct] of
        (es, Some e) \<Rightarrow> (es, Some e)
      | (es, None) \<Rightarrow>
          (case calls env [PySendEnd] of
             (es', r) \<Rightarrow> (es @ [Py2Cpp v] @ es', r)))"

subsection \<open>Lines 90 to 202: the loop\<close>

definition iteration :: "loop_state \<Rightarrow> iteration_env \<Rightarrow> event list \<times> outcome" where
  "iteration st env =
     (case recv_phase env of
        (es, Inl e) \<Rightarrow> (es, Raised e st)
      | (es, Inr None) \<Rightarrow> (es, Break st)
      | (es, Inr (Some d)) \<Rightarrow>
          (case analyse st d of
             Inl e \<Rightarrow> (es, Raised e st)
           | Inr (es2, v, st') \<Rightarrow>
               (case send_phase env v of
                  (es3, Some e) \<Rightarrow> (es @ es2 @ es3, Raised e st')
                | (es3, None) \<Rightarrow> (es @ es2 @ es3, Continue st'))))"

text \<open>The loop consumes one \<open>iteration_env\<close> per pass. When the simulator side offers
  nothing more, \<open>PyRecvBegin\<close> never returns: the script stays blocked.\<close>

fun loop :: "loop_state \<Rightarrow> iteration_env list \<Rightarrow> event list \<times> outcome" where
  "loop st [] = ([Call PyRecvBegin], Blocked st)"
| "loop st (env # envs) =
     (case iteration st env of
        (es, Continue st') \<Rightarrow> (case loop st' envs of (es', r) \<Rightarrow> (es @ es', r))
      | (es, r) \<Rightarrow> (es, r))"

subsection \<open>Lines 205 to 264: the handlers\<close>

text \<open>\<open>pd.DataFrame(data_store)\<close>: the columns are the keys of the dictionaries in the
  order of their first appearance; \<open>to_csv(csv_path, index=False)\<close> writes the header and
  one row per dictionary.\<close>

definition columns :: "data_point list \<Rightarrow> string list" where
  "columns dps =
     fold (\<lambda>k acc. if k \<in> set acc then acc else acc @ [k]) (concat (map (map fst) dps)) []"

definition to_csv :: "data_point list \<Rightarrow> csv_table" where
  "to_csv dps = (columns dps, map (\<lambda>dp. map (map_of dp) (columns dps)) dps)"

text \<open>\<open>if data_store: ... df.to_csv(...)\<close>, lines 218 to 221 and 248 to 250.\<close>

definition export_csv :: "loop_state \<Rightarrow> event list" where
  "export_csv st = (if data_store st \<noteq> [] then [ToCsv (to_csv (data_store st))] else [])"

text \<open>Lines 237 to 264.\<close>

definition finally_block :: "loop_state \<Rightarrow> event list" where
  "finally_block st = export_csv st @ [DelExp]"

text \<open>\<open>except Exception\<close> does not catch \<open>KeyboardInterrupt\<close>.\<close>

fun is_Exception :: "py_exception \<Rightarrow> bool" where
  "is_Exception KeyboardInterrupt = False"
| "is_Exception _ = True"

text \<open>The whole statement. \<open>exit(1)\<close> in the handler raises \<open>SystemExit\<close>, so the
  \<open>finally\<close> block runs after the handler as well.\<close>

definition script :: "iteration_env list \<Rightarrow> event list \<times> exit_status" where
  "script envs =
     (case loop initial_state envs of
        (es, Break st) \<Rightarrow> (es @ finally_block st, ExitCode 0)
      | (es, Raised e st) \<Rightarrow>
          if is_Exception e
          then (es @ export_csv st @ [SysExit 1] @ finally_block st, ExitCode 1)
          else (es @ finally_block st, Uncaught e)
      | (es, Blocked st) \<Rightarrow> (es, NeverExits)
      | (es, Continue st) \<Rightarrow> (es, NeverExits))"

subsection \<open>Reading a trace\<close>

fun means_of :: "event list \<Rightarrow> (real \<times> real) list" where
  "means_of [] = []"
| "means_of (MeanDL t m # es) = (t, m) # means_of es"
| "means_of (_ # es) = means_of es"

fun appended_of :: "event list \<Rightarrow> data_point list" where
  "appended_of [] = []"
| "appended_of (Append dp # es) = dp # appended_of es"
| "appended_of (_ # es) = appended_of es"

fun written_of :: "event list \<Rightarrow> real list" where
  "written_of [] = []"
| "written_of (Py2Cpp v # es) = v # written_of es"
| "written_of (_ # es) = written_of es"

fun csv_writes :: "event list \<Rightarrow> csv_table list" where
  "csv_writes [] = []"
| "csv_writes (ToCsv t # es) = t # csv_writes es"
| "csv_writes (_ # es) = csv_writes es"

fun calls_of :: "event list \<Rightarrow> call list" where
  "calls_of [] = []"
| "calls_of (Call c # es) = c # calls_of es"
| "calls_of (_ # es) = calls_of es"

subsection \<open>Inputs\<close>

text \<open>A pass in which the simulator publishes \<open>d\<close> and no call raises; the finish signal;
  a pass in which call \<open>c\<close> raises \<open>e\<close>.\<close>

definition ok_tick :: "wifi_data \<Rightarrow> iteration_env" where
  "ok_tick d = \<lparr>finished = False, cpp2py = d, raises = None\<rparr>"

definition finish_signal :: "wifi_data \<Rightarrow> iteration_env" where
  "finish_signal d = \<lparr>finished = True, cpp2py = d, raises = None\<rparr>"

definition failing_tick :: "wifi_data \<Rightarrow> call \<Rightarrow> py_exception \<Rightarrow> iteration_env" where
  "failing_tick d c e = \<lparr>finished = False, cpp2py = d, raises = Some (c, e)\<rparr>"

definition sample :: "real \<Rightarrow> real \<Rightarrow> wifi_data" where
  "sample t dl =
     \<lparr>pos_x = 0, pos_y = 0, distance = 0, dl_tp = dl, ul_tp = 0, get_ApTx = 20,
      sta_id = 0, now_sec = t\<rparr>"

subsection \<open>Notions used in the statements\<close>

text \<open>The arithmetic mean, as line 149 computes it.\<close>

definition mean :: "real list \<Rightarrow> real" where
  "mean xs = sum_list xs / real (length xs)"

text \<open>A pass that reads \<open>d\<close> in state \<open>st\<close> closes the window when the time stamp changes and
  the window holds a sample; \<open>known_mean\<close> is the value of \<open>prev_mean_dl\<close> after lines 146 to
  157, \<open>after_tick\<close> the state and \<open>tick_events\<close> the trace of a pass in which no call raises
  (lemma \<open>iteration_ok\<close> below).\<close>

definition closes :: "loop_state \<Rightarrow> wifi_data \<Rightarrow> bool" where
  "closes st d = (now_sec d \<noteq> prev_now_sec st \<and> current_dl_values st \<noteq> [])"

definition known_mean :: "loop_state \<Rightarrow> wifi_data \<Rightarrow> real option" where
  "known_mean st d =
     (if closes st d then Some (mean (current_dl_values st)) else prev_mean_dl st)"

definition after_tick :: "loop_state \<Rightarrow> wifi_data \<Rightarrow> loop_state" where
  "after_tick st d =
     \<lparr>data_store = data_store st @ [data_point d (set_ApTx (known_mean st d))],
      prev_now_sec = now_sec d,
      current_dl_values =
        (if now_sec d \<noteq> prev_now_sec st then [] else current_dl_values st) @ [dl_tp d],
      prev_mean_dl = known_mean st d\<rparr>"

definition tick_events :: "loop_state \<Rightarrow> wifi_data \<Rightarrow> event list" where
  "tick_events st d =
     map Call [PyRecvBegin, PyGetFinished, PyGetFinished, GetCpp2PyStruct, PyRecvEnd]
     @ (if closes st d then [MeanDL (prev_now_sec st) (mean (current_dl_values st))] else [])
     @ [Append (data_point d (set_ApTx (known_mean st d)))]
     @ [Call PySendBegin, Call GetPy2CppStruct, Py2Cpp (set_ApTx (known_mean st d)),
        Call PySendEnd]"

definition tick_calls :: "call list" where
  "tick_calls =
     [PyRecvBegin, PyGetFinished, PyGetFinished, GetCpp2PyStruct, PyRecvEnd,
      PySendBegin, GetPy2CppStruct, PySendEnd]"

text \<open>The calls of the send phase, which come after the record is stored.\<close>

definition send_calls :: "call list" where
  "send_calls = [PySendBegin, GetPy2CppStruct, PySendEnd]"

fun state_of :: "outcome \<Rightarrow> loop_state" where
  "state_of (Continue st) = st"
| "state_of (Break st) = st"
| "state_of (Raised e st) = st"
| "state_of (Blocked st) = st"

text \<open>The header and a row of the exported file, as the amended claim on the column order
  states them.\<close>

definition csv_header :: "string list" where
  "csv_header =
     [''pos_x'', ''pos_y'', ''distance'', ''dl_tp'', ''ul_tp'', ''get_ApTx'', ''sta_id'',
      ''now_sec'', ''set_ApTx'']"

definition csv_row :: "wifi_data \<Rightarrow> real \<Rightarrow> cell option list" where
  "csv_row d v =
     [Some (FloatCell (pos_x d)), Some (FloatCell (pos_y d)), Some (FloatCell (distance d)),
      Some (FloatCell (dl_tp d)), Some (FloatCell (ul_tp d)), Some (FloatCell (get_ApTx d)),
      Some (IntCell (sta_id d)), Some (FloatCell (now_sec d)), Some (FloatCell v)]"

text \<open>Concrete runs: an error in the middle of the loop; the end-to-end scenarios A and B, for
  any values of the fields they do not mention; a run whose third time stamp regresses.\<close>

definition mid_loop_error :: "iteration_env list" where
  "mid_loop_error =
     [ok_tick (sample 1 10), failing_tick (sample 1 20) PyRecvBegin ChannelError]"

definition scenario_A :: "wifi_data \<Rightarrow> wifi_data \<Rightarrow> wifi_data \<Rightarrow> wifi_data \<Rightarrow> iteration_env list" where
  "scenario_A a b c z =
     [ok_tick (a\<lparr>dl_tp := 10, now_sec := 1\<rparr>), ok_tick (b\<lparr>dl_tp := 20, now_sec := 1\<rparr>),
      ok_tick (c\<lparr>dl_tp := 30, now_sec := 1\<rparr>), finish_signal z]"

definition scenario_B ::
  "wifi_data \<Rightarrow> wifi_data \<Rightarrow> wifi_data \<Rightarrow> wifi_data \<Rightarrow> wifi_data \<Rightarrow> iteration_env list" where
  "scenario_B a b c e z =
     [ok_tick (a\<lparr>dl_tp := 10, now_sec := 1\<rparr>), ok_tick (b\<lparr>dl_tp := 20, now_sec := 1\<rparr>),
      ok_tick (c\<lparr>dl_tp := 30, now_sec := 1\<rparr>), ok_tick (e\<lparr>dl_tp := 50, now_sec := 2\<rparr>),
      finish_signal z]"

definition regress_run :: "iteration_env list" where
  "regress_run =
     [ok_tick (sample 1 10), ok_tick (sample 2 50), ok_tick (sample 1 0),
      finish_signal (sample 1 0)]"

section \<open>Properties\<close>

subsection \<open>A pass in which no call raises\<close>

lemma window_update_eq:
  "window_update st d =
     Inr (if closes st d then [MeanDL (prev_now_sec st) (mean (current_dl_values st))] else [],
          \<lparr>data_store = data_store st,
           prev_now_sec = now_sec d,
           current_dl_values =
             (if now_sec d \<noteq> prev_now_sec st then [] else current_dl_values st) @ [dl_tp d],
           prev_mean_dl = known_mean st d\<rparr>)"
  by (simp add: window_update_def py_truediv_def mean_def closes_def known_mean_def)

lemma analyse_eq:
  "analyse st d =
     Inr ((if closes st d then [MeanDL (prev_now_sec st) (mean (current_dl_values st))] else [])
          @ [Append (data_point d (set_ApTx (known_mean st d)))],
          set_ApTx (known_mean st d), after_tick st d)"
  by (simp add: analyse_def window_update_eq after_tick_def Let_def)

lemma ok_tick_sel [simp]:
  "finished (ok_tick d) = False" "cpp2py (ok_tick d) = d" "raises (ok_tick d) = None"
  by (simp_all add: ok_tick_def)

lemma finish_signal_sel [simp]:
  "finished (finish_signal d) = True" "raises (finish_signal d) = None"
  by (simp_all add: finish_signal_def)

lemma failing_tick_sel [simp]:
  "finished (failing_tick d c e) = False" "cpp2py (failing_tick d c e) = d"
  "raises (failing_tick d c e) = Some (c, e)"
  by (simp_all add: failing_tick_def)

lemma raised_by_none: "raises env = None \<Longrightarrow> raised_by env c = None"
  by (simp add: raised_by_def)

lemma recv_phase_ok:
  "recv_phase (ok_tick d) =
     (map Call [PyRecvBegin, PyGetFinished, PyGetFinished, GetCpp2PyStruct, PyRecvEnd],
      Inr (Some d))"
  by (simp add: recv_phase_def raised_by_none)

lemma send_phase_ok:
  "send_phase (ok_tick d) v =
     ([Call PySendBegin, Call GetPy2CppStruct, Py2Cpp v, Call PySendEnd], None)"
  by (simp add: send_phase_def raised_by_none)

lemma iteration_ok: "iteration st (ok_tick d) = (tick_events st d, Continue (after_tick st d))"
  by (simp add: iteration_def recv_phase_ok analyse_eq send_phase_ok tick_events_def)

lemma iteration_finish:
  "iteration st (finish_signal d) =
     ([Call PyRecvBegin, Call PyGetFinished, Call PyGetFinished], Break st)"
  by (simp add: iteration_def recv_phase_def raised_by_none)

lemma loop_ok_cons:
  "loop st (ok_tick d # envs) =
     (tick_events st d @ fst (loop (after_tick st d) envs), snd (loop (after_tick st d) envs))"
  by (simp add: iteration_ok split: prod.splits)

lemma loop_finish_cons:
  "loop st (finish_signal d # envs) =
     ([Call PyRecvBegin, Call PyGetFinished, Call PyGetFinished], Break st)"
  by (simp add: iteration_finish)

lemma loop_fail_recv_begin:
  "loop st (failing_tick d PyRecvBegin e # envs) = ([Call PyRecvBegin], Raised e st)"
  by (simp add: loop.simps(2) iteration_def recv_phase_def raised_by_def)

declare loop.simps(2) [simp del]

subsection \<open>Traces\<close>

lemma means_of_append: "means_of (xs @ ys) = means_of xs @ means_of ys"
  by (induction xs rule: means_of.induct) simp_all

lemma appended_of_append: "appended_of (xs @ ys) = appended_of xs @ appended_of ys"
  by (induction xs rule: appended_of.induct) simp_all

lemma written_of_append: "written_of (xs @ ys) = written_of xs @ written_of ys"
  by (induction xs rule: written_of.induct) simp_all

lemma csv_writes_append: "csv_writes (xs @ ys) = csv_writes xs @ csv_writes ys"
  by (induction xs rule: csv_writes.induct) simp_all

lemma calls_of_append: "calls_of (xs @ ys) = calls_of xs @ calls_of ys"
  by (induction xs rule: calls_of.induct) simp_all

lemma means_of_tick_events:
  "means_of (tick_events st d) =
     (if closes st d then [(prev_now_sec st, mean (current_dl_values st))] else [])"
  by (simp add: tick_events_def)

lemma written_of_tick_events: "written_of (tick_events st d) = [set_ApTx (known_mean st d)]"
  by (simp add: tick_events_def)

lemma appended_of_tick_events:
  "appended_of (tick_events st d) = [data_point d (set_ApTx (known_mean st d))]"
  by (simp add: tick_events_def)

lemma calls_of_tick_events: "calls_of (tick_events st d) = tick_calls"
  by (simp add: tick_events_def tick_calls_def)

lemma csv_writes_tick_events: "csv_writes (tick_events st d) = []"
  by (simp add: tick_events_def)

lemma appended_of_export [simp]: "appended_of (export_csv st) = []"
  by (simp add: export_csv_def)

lemma means_of_export [simp]: "means_of (export_csv st) = []"
  by (simp add: export_csv_def)

lemma written_of_export [simp]: "written_of (export_csv st) = []"
  by (simp add: export_csv_def)

lemma calls_of_export [simp]: "calls_of (export_csv st) = []"
  by (simp add: export_csv_def)

lemma csv_writes_export:
  "csv_writes (export_csv st) = (if data_store st = [] then [] else [to_csv (data_store st)])"
  by (simp add: export_csv_def)

lemma calls_shape: "set (fst (calls env cs)) \<subseteq> range Call"
  by (induction cs) (auto split: option.splits prod.splits)

lemma only_calls:
  assumes "set es \<subseteq> range Call"
  shows "means_of es = []" "appended_of es = []" "written_of es = []" "csv_writes es = []"
  using assms by (induction es) auto

lemma recv_phase_shape: "set (fst (recv_phase env)) \<subseteq> range Call"
proof -
  have a: "set (fst (calls env [PyRecvBegin, PyGetFinished, PyGetFinished])) \<subseteq> range Call"
    by (rule calls_shape)
  have b: "set (fst (calls env [GetCpp2PyStruct, PyRecvEnd])) \<subseteq> range Call"
    by (rule calls_shape)
  show ?thesis
    unfolding recv_phase_def using a b
    by (auto split: prod.splits option.splits)
qed

lemma send_phase_shape:
  "appended_of (fst (send_phase env v)) = []"
  "csv_writes (fst (send_phase env v)) = []"
  "means_of (fst (send_phase env v)) = []"
proof -
  have a: "set (fst (calls env [PySendBegin, GetPy2CppStruct])) \<subseteq> range Call"
    by (rule calls_shape)
  have b: "set (fst (calls env [PySendEnd])) \<subseteq> range Call"
    by (rule calls_shape)
  note oa = only_calls[OF a] and ob = only_calls[OF b]
  show "appended_of (fst (send_phase env v)) = []"
    unfolding send_phase_def using oa ob
    by (auto split: prod.splits option.splits simp: appended_of_append simp del: calls.simps)
  show "csv_writes (fst (send_phase env v)) = []"
    unfolding send_phase_def using oa ob
    by (auto split: prod.splits option.splits simp: csv_writes_append simp del: calls.simps)
  show "means_of (fst (send_phase env v)) = []"
    unfolding send_phase_def using oa ob
    by (auto split: prod.splits option.splits simp: means_of_append simp del: calls.simps)
qed

lemma send_phase_written:
  "send_phase env v = (es, None) \<Longrightarrow> written_of es = [v]"
proof -
  have a: "set (fst (calls env [PySendBegin, GetPy2CppStruct])) \<subseteq> range Call"
    by (rule calls_shape)
  have b: "set (fst (calls env [PySendEnd])) \<subseteq> range Call"
    by (rule calls_shape)
  note oa = only_calls(3)[OF a] and ob = only_calls(3)[OF b]
  assume "send_phase env v = (es, None)"
  then show ?thesis
    unfolding send_phase_def using oa ob
    by (auto split: prod.splits option.splits simp: written_of_append simp del: calls.simps)
qed

lemma after_tick_sel [simp]:
  "prev_now_sec (after_tick st d) = now_sec d"
  "current_dl_values (after_tick st d) =
     (if now_sec d \<noteq> prev_now_sec st then [] else current_dl_values st) @ [dl_tp d]"
  "prev_mean_dl (after_tick st d) = known_mean st d"
  "data_store (after_tick st d) = data_store st @ [data_point d (set_ApTx (known_mean st d))]"
  by (simp_all add: after_tick_def)

lemmas run_simps =
  script_def loop_ok_cons loop_finish_cons finally_block_def export_csv_def
  means_of_append written_of_append appended_of_append csv_writes_append calls_of_append
  means_of_tick_events written_of_tick_events appended_of_tick_events calls_of_tick_events
  csv_writes_tick_events
  closes_def known_mean_def mean_def initial_state_def set_ApTx_def

subsection \<open>The record store and the exported file\<close>

lemma iteration_store:
  "data_store (state_of (snd (iteration st env))) = data_store st @ appended_of (fst (iteration st env))
   \<and> csv_writes (fst (iteration st env)) = []"
proof -
  obtain es r where rp: "recv_phase env = (es, r)" by (cases "recv_phase env")
  have r: "appended_of es = []" "csv_writes es = []"
    using only_calls[OF recv_phase_shape[of env]] rp by simp_all
  show ?thesis
  proof (cases r)
    case (Inl e)
    then show ?thesis using rp r by (simp add: iteration_def)
  next
    case (Inr od)
    show ?thesis
    proof (cases od)
      case None
      then show ?thesis using Inr rp r by (simp add: iteration_def)
    next
      case (Some d)
      obtain es3 r3 where sp: "send_phase env (set_ApTx (known_mean st d)) = (es3, r3)"
        by (cases "send_phase env (set_ApTx (known_mean st d))")
      have s: "appended_of es3 = []" "csv_writes es3 = []"
        using send_phase_shape[of env "set_ApTx (known_mean st d)"] sp by simp_all
      show ?thesis using Some Inr rp r sp s
        by (cases r3) (simp_all add: iteration_def analyse_eq appended_of_append
            csv_writes_append)
    qed
  qed
qed

lemma loop_store:
  "data_store (state_of (snd (loop st envs))) = data_store st @ appended_of (fst (loop st envs))
   \<and> csv_writes (fst (loop st envs)) = []"
proof (induction envs arbitrary: st)
  case Nil
  show ?case by simp
next
  case (Cons env envs)
  show ?case
  proof (cases "iteration st env")
    case (Pair es out)
    have it: "data_store (state_of out) = data_store st @ appended_of es" "csv_writes es = []"
      using iteration_store[of st env] Pair by simp_all
    show ?thesis
    proof (cases out)
      case (Continue st')
      then show ?thesis
        using Pair it Cons.IH[of st']
        by (simp add: loop.simps(2) appended_of_append csv_writes_append case_prod_unfold)
    qed (use Pair it in \<open>simp_all add: loop.simps(2)\<close>)
  qed
qed

lemma loop_never_continues: "snd (loop st envs) \<noteq> Continue st'"
proof (induction envs arbitrary: st)
  case Nil
  show ?case by simp
next
  case (Cons env envs)
  show ?case
    using Cons.IH
    by (simp add: loop.simps(2) case_prod_unfold split: outcome.splits)
qed

lemma script_csv_writes:
  "csv_writes (fst (script envs)) =
     replicate
       (if appended_of (fst (script envs)) = [] then 0
        else (case snd (script envs) of
                ExitCode n \<Rightarrow> if n = 0 then 1 else 2
              | Uncaught e \<Rightarrow> 1
              | NeverExits \<Rightarrow> 0))
       (to_csv (appended_of (fst (script envs))))"
proof (cases "loop initial_state envs")
  case (Pair es out)
  have st: "data_store (state_of out) = appended_of es" and nw: "csv_writes es = []"
    using loop_store[of initial_state envs] Pair by (simp_all add: initial_state_def)
  have nc: "\<And>st'. out \<noteq> Continue st'"
    using loop_never_continues[of initial_state envs] Pair by simp
  show ?thesis
  proof (cases out)
    case (Continue st')
    then show ?thesis using nc by simp
  next
    case (Break st')
    then show ?thesis using Pair st nw
      by (simp add: script_def finally_block_def appended_of_append csv_writes_append
          csv_writes_export)
  next
    case (Raised e st')
    then show ?thesis using Pair st nw
      by (simp add: script_def finally_block_def appended_of_append csv_writes_append
          csv_writes_export numeral_2_eq_2)
  next
    case (Blocked st')
    then show ?thesis using Pair st nw
      by (simp add: script_def)
  qed
qed

lemma appended_of_script:
  "appended_of (fst (script envs)) = appended_of (fst (loop initial_state envs))"
  by (cases "loop initial_state envs")
     (simp add: script_def finally_block_def appended_of_append split: outcome.splits)

lemma means_of_script:
  "means_of (fst (script envs)) = means_of (fst (loop initial_state envs))"
  by (cases "loop initial_state envs")
     (simp add: script_def finally_block_def means_of_append split: outcome.splits)

lemma written_of_script:
  "written_of (fst (script envs)) = written_of (fst (loop initial_state envs))"
  by (cases "loop initial_state envs")
     (simp add: script_def finally_block_def written_of_append split: outcome.splits)

lemma keys_data_point: "map fst (data_point d v) = csv_header"
  by (simp add: data_point_def csv_header_def)

lemma fold_keys_known:
  "set ks \<subseteq> set acc \<Longrightarrow>
     fold (\<lambda>k acc. if k \<in> set acc then acc else acc @ [k]) ks acc = acc"
  by (induction ks) simp_all

lemma fold_keys_header:
  "fold (\<lambda>k acc. if k \<in> set acc then acc else acc @ [k]) csv_header [] = csv_header"
  by (simp add: csv_header_def)

lemma fold_keys_more:
  "\<forall>dp\<in>set dps. map fst dp = csv_header \<Longrightarrow>
     fold (\<lambda>k acc. if k \<in> set acc then acc else acc @ [k]) (concat (map (map fst) dps))
       csv_header = csv_header"
  by (induction dps) (simp_all add: fold_keys_known)

lemma columns_same_keys:
  assumes "dps \<noteq> []" and "\<forall>dp\<in>set dps. map fst dp = csv_header"
  shows "columns dps = csv_header"
proof (cases dps)
  case Nil
  with assms(1) show ?thesis by simp
next
  case (Cons dp dps')
  have "map fst dp = csv_header" and rest: "\<forall>dp\<in>set dps'. map fst dp = csv_header"
    using assms(2) Cons by simp_all
  then show ?thesis
    unfolding columns_def Cons
    by (simp add: fold_keys_header fold_keys_more[OF rest])
qed

lemma row_data_point: "map (map_of (data_point d v)) csv_header = csv_row d v"
  by (simp add: data_point_def csv_header_def csv_row_def)

lemma to_csv_data_points:
  assumes "xs \<noteq> []"
  shows "to_csv (map (\<lambda>(d, v). data_point d v) xs) =
           (csv_header, map (\<lambda>(d, v). csv_row d v) xs)"
proof -
  have c: "columns (map (\<lambda>(d, v). data_point d v) xs) = csv_header"
    using assms by (intro columns_same_keys) (auto simp: keys_data_point)
  show ?thesis
    unfolding to_csv_def c by (simp add: row_data_point case_prod_unfold)
qed

lemma iteration_appends:
  "\<exists>xs. appended_of (fst (iteration st env)) = map (\<lambda>(d, v). data_point d v) xs"
proof -
  obtain es r where rp: "recv_phase env = (es, r)" by (cases "recv_phase env")
  have r: "appended_of es = []"
    using only_calls[OF recv_phase_shape[of env]] rp by simp
  have nil: "[] = map (\<lambda>(d, v). data_point d v) []" by simp
  show ?thesis
  proof (cases r)
    case (Inl e)
    then show ?thesis using rp r nil by (simp add: iteration_def)
  next
    case (Inr od)
    show ?thesis
    proof (cases od)
      case None
      then show ?thesis using Inr rp r nil by (simp add: iteration_def)
    next
      case (Some d)
      let ?v = "set_ApTx (known_mean st d)"
      obtain es3 r3 where sp: "send_phase env ?v = (es3, r3)"
        by (cases "send_phase env ?v")
      have s: "appended_of es3 = []"
        using send_phase_shape[of env ?v] sp by simp
      have "appended_of (fst (iteration st env)) = map (\<lambda>(d, v). data_point d v) [(d, ?v)]"
        using Some Inr rp r sp s
        by (cases r3) (simp_all add: iteration_def analyse_eq appended_of_append)
      then show ?thesis by blast
    qed
  qed
qed

lemma loop_appends:
  "\<exists>xs. appended_of (fst (loop st envs)) = map (\<lambda>(d, v). data_point d v) xs"
proof (induction envs arbitrary: st)
  case Nil
  have "appended_of (fst (loop st [])) = map (\<lambda>(d, v). data_point d v) []" by simp
  then show ?case by blast
next
  case (Cons env envs)
  obtain xs where xs: "appended_of (fst (iteration st env)) = map (\<lambda>(d, v). data_point d v) xs"
    using iteration_appends by blast
  show ?case
  proof (cases "snd (iteration st env)")
    case (Continue st')
    obtain ys where ys: "appended_of (fst (loop st' envs)) = map (\<lambda>(d, v). data_point d v) ys"
      using Cons.IH by blast
    have "appended_of (fst (loop st (env # envs))) = map (\<lambda>(d, v). data_point d v) (xs @ ys)"
      using Continue xs ys
      by (simp add: loop.simps(2) case_prod_unfold appended_of_append)
    then show ?thesis by blast
  next
    case (Break st')
    then have "appended_of (fst (loop st (env # envs))) = map (\<lambda>(d, v). data_point d v) xs"
      using xs by (simp add: loop.simps(2) case_prod_unfold)
    then show ?thesis by blast
  next
    case (Raised e st')
    then have "appended_of (fst (loop st (env # envs))) = map (\<lambda>(d, v). data_point d v) xs"
      using xs by (simp add: loop.simps(2) case_prod_unfold)
    then show ?thesis by blast
  next
    case (Blocked st')
    then have "appended_of (fst (loop st (env # envs))) = map (\<lambda>(d, v). data_point d v) xs"
      using xs by (simp add: loop.simps(2) case_prod_unfold)
    then show ?thesis by blast
  qed
qed

subsection \<open>Window means over a whole run\<close>

lemma sorted_le_last:
  "sorted (map f ps) \<Longrightarrow> x \<in> set ps \<Longrightarrow> f x \<le> f (last ps)"
  by (induction ps) (auto split: if_splits)

lemma window_means_from:
  assumes "ps \<noteq> []" and "sorted (map now_sec (ps @ ds))"
    and "prev_now_sec st = now_sec (last ps)"
    and "current_dl_values st = map dl_tp (filter (\<lambda>x. now_sec x = now_sec (last ps)) ps)"
  shows "means_of (fst (loop st (map ok_tick ds @ [finish_signal d']))) =
           map (\<lambda>(a, b). (now_sec a,
                  mean (map dl_tp (filter (\<lambda>x. now_sec x = now_sec a) (ps @ ds)))))
               (filter (\<lambda>(a, b). now_sec a \<noteq> now_sec b) (zip (last ps # ds) ds))"
  using assms
proof (induction ds arbitrary: ps st)
  case Nil
  then show ?case by (simp add: loop_finish_cons)
next
  case (Cons d ds)
  let ?t = "now_sec (last ps)"
  have srt: "sorted (map now_sec ps)" and srt2: "sorted (map now_sec (d # ds))"
    and cross: "\<forall>x\<in>set ps. \<forall>y\<in>set (d # ds). now_sec x \<le> now_sec y"
    using Cons.prems(2) by (auto simp: sorted_append)
  have le_last: "\<forall>x\<in>set ps. now_sec x \<le> ?t"
    using sorted_le_last[of now_sec ps, OF srt] by blast
  have last_in: "last ps \<in> set ps" using Cons.prems(1) by simp
  have nonempty: "current_dl_values st \<noteq> []"
  proof -
    have "filter (\<lambda>x. now_sec x = ?t) ps \<noteq> []"
      using last_in by (auto simp: filter_empty_conv)
    then show ?thesis using Cons.prems(4) by simp
  qed
  have ih_pre1: "ps @ [d] \<noteq> []" by simp
  have ih_pre2: "sorted (map now_sec ((ps @ [d]) @ ds))" using Cons.prems(2) by simp
  have ih_pre3: "prev_now_sec (after_tick st d) = now_sec (last (ps @ [d]))" by simp
  show ?case
  proof (cases "now_sec d = ?t")
    case True
    have cl: "\<not> closes st d" using True Cons.prems(3) by (simp add: closes_def)
    have ih_pre4: "current_dl_values (after_tick st d) =
        map dl_tp (filter (\<lambda>x. now_sec x = now_sec (last (ps @ [d]))) (ps @ [d]))"
      using True Cons.prems(3,4) by simp
    from Cons.IH[OF ih_pre1 ih_pre2 ih_pre3 ih_pre4]
    show ?thesis using True cl
      by (simp add: loop_ok_cons means_of_append means_of_tick_events)
  next
    case False
    have lt: "?t < now_sec d" using False cross last_in by fastforce
    have cl: "closes st d" using False Cons.prems(3) nonempty by (simp add: closes_def)
    have none_ps: "filter (\<lambda>x. now_sec x = now_sec d) ps = []"
      using le_last lt by (auto simp: filter_empty_conv)
    have none_ds: "filter (\<lambda>x. now_sec x = ?t) (d # ds) = []"
    proof -
      have "\<forall>y\<in>set (d # ds). now_sec d \<le> now_sec y" using srt2 by auto
      then show ?thesis using lt by (fastforce simp: filter_empty_conv)
    qed
    have ih_pre4: "current_dl_values (after_tick st d) =
        map dl_tp (filter (\<lambda>x. now_sec x = now_sec (last (ps @ [d]))) (ps @ [d]))"
      using False Cons.prems(3) none_ps by simp
    have mean_eq: "mean (current_dl_values st) =
        mean (map dl_tp (filter (\<lambda>x. now_sec x = ?t) (ps @ d # ds)))"
      using none_ds Cons.prems(4) by simp
    from Cons.IH[OF ih_pre1 ih_pre2 ih_pre3 ih_pre4]
    show ?thesis using False cl mean_eq Cons.prems(3)
      by (simp add: loop_ok_cons means_of_append means_of_tick_events)
  qed
qed

lemma loop_ok_prefix:
  "calls_of (fst (loop st (map ok_tick ds @ envs))) =
     concat (replicate (length ds) tick_calls)
     @ calls_of (fst (loop (foldl after_tick st ds) envs))"
  "snd (loop st (map ok_tick ds @ envs)) = snd (loop (foldl after_tick st ds) envs)"
  by (induction ds arbitrary: st)
     (simp_all add: loop_ok_cons calls_of_append calls_of_tick_events)

lemma iteration_means_initial: "means_of (fst (iteration initial_state env)) = []"
proof -
  obtain es1 r where rp: "recv_phase env = (es1, r)" by (cases "recv_phase env")
  have r: "means_of es1 = []"
    using only_calls[OF recv_phase_shape[of env]] rp by simp
  show ?thesis
  proof (cases r)
    case (Inl e)
    then show ?thesis using rp r by (simp add: iteration_def)
  next
    case (Inr od)
    show ?thesis
    proof (cases od)
      case None
      then show ?thesis using Inr rp r by (simp add: iteration_def)
    next
      case (Some d)
      let ?v = "set_ApTx (known_mean initial_state d)"
      obtain es3 r3 where sp: "send_phase env ?v = (es3, r3)"
        by (cases "send_phase env ?v")
      have s: "means_of es3 = []"
        using send_phase_shape(3)[of env ?v] sp by simp
      have nc: "\<not> closes initial_state d" by (simp add: closes_def initial_state_def)
      show ?thesis using Some Inr rp r sp s nc
        by (cases r3) (simp_all add: iteration_def analyse_eq means_of_append)
    qed
  qed
qed

subsection \<open>How a run ends\<close>

lemma iteration_failing:
  "snd (iteration st (failing_tick d c e)) =
     Raised e (if c \<in> set send_calls then after_tick st d else st)"
  "appended_of (fst (iteration st (failing_tick d c e))) =
     (if c \<in> set send_calls then [data_point d (set_ApTx (known_mean st d))] else [])"
  by (cases c;
      simp add: iteration_def recv_phase_def send_phase_def raised_by_def analyse_eq
        send_calls_def appended_of_append)+

lemma loop_failing_cons:
  "snd (loop st (failing_tick d c e # envs)) =
     Raised e (if c \<in> set send_calls then after_tick st d else st)"
  "appended_of (fst (loop st (failing_tick d c e # envs))) =
     (if c \<in> set send_calls then [data_point d (set_ApTx (known_mean st d))] else [])"
  using iteration_failing[of st d c e]
  by (cases "iteration st (failing_tick d c e)"; simp add: loop.simps(2))+

lemma loop_ok_prefix_appended:
  "length (appended_of (fst (loop st (map ok_tick ds @ envs)))) =
     length ds + length (appended_of (fst (loop (foldl after_tick st ds) envs)))"
  by (induction ds arbitrary: st)
     (simp_all add: loop_ok_cons appended_of_append appended_of_tick_events)

lemma script_by_outcome:
  "csv_writes (fst (script envs)) =
     replicate
       (if appended_of (fst (script envs)) = [] then 0
        else (case snd (loop initial_state envs) of
                Break st \<Rightarrow> 1
              | Raised e st \<Rightarrow> if e = KeyboardInterrupt then 1 else 2
              | Blocked st \<Rightarrow> 0
              | Continue st \<Rightarrow> 0))
       (to_csv (appended_of (fst (script envs))))
   \<and> snd (script envs) =
       (case snd (loop initial_state envs) of
          Break st \<Rightarrow> ExitCode 0
        | Raised e st \<Rightarrow> if e = KeyboardInterrupt then Uncaught e else ExitCode 1
        | Blocked st \<Rightarrow> NeverExits
        | Continue st \<Rightarrow> NeverExits)"
proof (cases "loop initial_state envs")
  case (Pair es out)
  have st: "data_store (state_of out) = appended_of es" and nw: "csv_writes es = []"
    using loop_store[of initial_state envs] Pair by (simp_all add: initial_state_def)
  show ?thesis
  proof (cases out)
    case (Continue st')
    then show ?thesis using Pair st nw by (simp add: script_def)
  next
    case (Break st')
    then show ?thesis using Pair st nw
      by (simp add: script_def finally_block_def appended_of_append csv_writes_append
          csv_writes_export)
  next
    case (Raised e st')
    then show ?thesis using Pair st nw
      by (cases e)
         (simp_all add: script_def finally_block_def appended_of_append csv_writes_append
          csv_writes_export numeral_2_eq_2)
  next
    case (Blocked st')
    then show ?thesis using Pair st nw
      by (simp add: script_def)
  qed
qed

lemma loop_blocked: "snd (loop st (map ok_tick ds)) = Blocked (foldl after_tick st ds)"
  using loop_ok_prefix(2)[of st ds "[]"] by simp

section \<open>The claims\<close>

subsection \<open>C1: how often the records are exported\<close>

text \<open>C1, as stated, fails: when a \<open>ChannelError\<close> is raised in the second pass, after one
  record was stored, the file is written twice (by the \<open>except\<close> handler, and again by the
  \<open>finally\<close> block that runs when \<open>exit(1)\<close> raises \<open>SystemExit\<close>).\<close>

theorem flush_twice_on_error:
  "length (csv_writes (fst (script mid_loop_error))) = 2
   \<and> snd (script mid_loop_error) = ExitCode 1"
  by (simp add: mid_loop_error_def run_simps loop_fail_recv_begin)

text \<open>C1, amended: every export writes all the records stored so far. After any number of
  complete passes: a finish signal ends the script with exit code 0 and one export (none
  when no record was stored); a call that raises ends it with two exports and exit code 1
  when the exception is caught by the handler, and with one export and the exception
  uncaught when it is \<open>KeyboardInterrupt\<close> (none in both cases when no record was stored); the
  record of the failing pass is among those exported exactly when the call that raises
  belongs to the send phase; while the script is blocked in \<open>PyRecvBegin\<close> nothing is
  exported. The last part gives the same count for an arbitrary run, from the way its loop
  ends.\<close>

theorem flush_count:
  "(csv_writes (fst (script (map ok_tick ds @ finish_signal z # rest))) =
      (if ds = [] then []
       else [to_csv (appended_of (fst (script (map ok_tick ds @ finish_signal z # rest))))])
    \<and> length (appended_of (fst (script (map ok_tick ds @ finish_signal z # rest)))) = length ds
    \<and> snd (script (map ok_tick ds @ finish_signal z # rest)) = ExitCode 0)
   \<and> (csv_writes (fst (script (map ok_tick ds @ failing_tick d c e # rest))) =
        replicate
          (if appended_of (fst (script (map ok_tick ds @ failing_tick d c e # rest))) = [] then 0
           else if e = KeyboardInterrupt then 1 else 2)
          (to_csv (appended_of (fst (script (map ok_tick ds @ failing_tick d c e # rest)))))
      \<and> length (appended_of (fst (script (map ok_tick ds @ failing_tick d c e # rest)))) =
          length ds + (if c \<in> set send_calls then 1 else 0)
      \<and> snd (script (map ok_tick ds @ failing_tick d c e # rest)) =
          (if e = KeyboardInterrupt then Uncaught KeyboardInterrupt else ExitCode 1))
   \<and> (csv_writes (fst (script (map ok_tick ds))) = []
      \<and> snd (script (map ok_tick ds)) = NeverExits)
   \<and> (csv_writes (fst (script envs)) =
        replicate
          (if appended_of (fst (script envs)) = [] then 0
           else (case snd (loop initial_state envs) of
                   Break st \<Rightarrow> 1
                 | Raised e st \<Rightarrow> if e = KeyboardInterrupt then 1 else 2
                 | Blocked st \<Rightarrow> 0
                 | Continue st \<Rightarrow> 0))
          (to_csv (appended_of (fst (script envs))))
      \<and> snd (script envs) =
          (case snd (loop initial_state envs) of
             Break st \<Rightarrow> ExitCode 0
           | Raised e st \<Rightarrow> if e = KeyboardInterrupt then Uncaught e else ExitCode 1
           | Blocked st \<Rightarrow> NeverExits
           | Continue st \<Rightarrow> NeverExits))"
proof -
  let ?F = "map ok_tick ds @ finish_signal z # rest"
  let ?R = "map ok_tick ds @ failing_tick d c e # rest"
  let ?s = "foldl after_tick initial_state ds"
  have oF: "snd (loop initial_state ?F) = Break ?s"
    using loop_ok_prefix(2)[of initial_state ds "finish_signal z # rest"]
    by (simp add: loop_finish_cons)
  have lF: "length (appended_of (fst (script ?F))) = length ds"
    using loop_ok_prefix_appended[of initial_state ds "finish_signal z # rest"]
    by (simp add: appended_of_script loop_finish_cons)
  have oR: "snd (loop initial_state ?R) =
      Raised e (if c \<in> set send_calls then after_tick ?s d else ?s)"
    using loop_ok_prefix(2)[of initial_state ds "failing_tick d c e # rest"]
    by (simp only: loop_failing_cons)
  have lR: "length (appended_of (fst (script ?R))) =
      length ds + (if c \<in> set send_calls then 1 else 0)"
    using loop_ok_prefix_appended[of initial_state ds "failing_tick d c e # rest"]
    by (simp add: appended_of_script loop_failing_cons)
  have neF: "(appended_of (fst (script ?F)) = []) = (ds = [])"
    using lF by (metis length_0_conv)
  have a: "csv_writes (fst (script ?F)) =
      (if ds = [] then [] else [to_csv (appended_of (fst (script ?F)))])
    \<and> snd (script ?F) = ExitCode 0"
    using script_by_outcome[of ?F, unfolded oF] neF by simp
  have b: "csv_writes (fst (script ?R)) =
        replicate
          (if appended_of (fst (script ?R)) = [] then 0
           else if e = KeyboardInterrupt then 1 else 2)
          (to_csv (appended_of (fst (script ?R))))
      \<and> snd (script ?R) = (if e = KeyboardInterrupt then Uncaught KeyboardInterrupt else ExitCode 1)"
    using script_by_outcome[of ?R, unfolded oR] by simp
  have c: "csv_writes (fst (script (map ok_tick ds))) = []
      \<and> snd (script (map ok_tick ds)) = NeverExits"
    using script_by_outcome[of "map ok_tick ds"] loop_blocked[of initial_state ds] by simp
  show ?thesis using a b c lF lR script_by_outcome[of envs] by blast
qed

subsection \<open>C2: the pass that sees the finish signal\<close>

text \<open>C2, as stated, fails: the pass that observes the finish signal never calls
  \<open>PyRecvEnd\<close>; the loop is left by \<open>break\<close> right after the test.\<close>

theorem finish_without_PyRecvEnd:
  "PyRecvEnd \<notin> set (calls_of (fst (iteration initial_state (finish_signal (sample 0 0)))))"
  by (simp add: iteration_finish)

text \<open>C2, amended: when the finish signal is observed after \<open>PyRecvBegin\<close>, the pass consists
  of \<open>PyRecvBegin\<close> and the two calls of \<open>PyGetFinished\<close> and leaves the loop; after any
  number of complete passes the run makes no further call on the interface (neither
  \<open>PyRecvEnd\<close> nor a call of the send phase) and the script ends with exit code 0.\<close>

theorem finish_exits:
  assumes "finished env" and "raised_by env PyRecvBegin = None"
    and "raised_by env PyGetFinished = None"
  shows "iteration st env = ([Call PyRecvBegin, Call PyGetFinished, Call PyGetFinished], Break st)
         \<and> calls_of (fst (script (map ok_tick ds @ env # envs))) =
             concat (replicate (length ds) tick_calls)
             @ [PyRecvBegin, PyGetFinished, PyGetFinished]
         \<and> snd (script (map ok_tick ds @ env # envs)) = ExitCode 0"
proof -
  have it: "iteration st env =
      ([Call PyRecvBegin, Call PyGetFinished, Call PyGetFinished], Break st)" for st
    using assms by (simp add: iteration_def recv_phase_def)
  have lp: "loop st (env # envs) =
      ([Call PyRecvBegin, Call PyGetFinished, Call PyGetFinished], Break st)" for st
    by (simp add: loop.simps(2) it)
  obtain es out where l: "loop initial_state (map ok_tick ds @ env # envs) = (es, out)"
    by (cases "loop initial_state (map ok_tick ds @ env # envs)")
  have out: "out = Break (foldl after_tick initial_state ds)"
    using loop_ok_prefix(2)[of initial_state ds "env # envs"] l by (simp add: lp)
  have es: "calls_of es = concat (replicate (length ds) tick_calls)
             @ [PyRecvBegin, PyGetFinished, PyGetFinished]"
    using loop_ok_prefix(1)[of initial_state ds "env # envs"] l by (simp add: lp)
  show ?thesis using it l out es
    by (simp add: script_def finally_block_def calls_of_append)
qed

theorem finish_exits_witness:
  "finished (finish_signal (sample 0 0))
   \<and> raised_by (finish_signal (sample 0 0)) PyRecvBegin = None
   \<and> raised_by (finish_signal (sample 0 0)) PyGetFinished = None
   \<and> calls_of (fst (script (map ok_tick [sample 1 10] @ finish_signal (sample 0 0)
                                # [ok_tick (sample 2 50)]))) =
       tick_calls @ [PyRecvBegin, PyGetFinished, PyGetFinished]"
proof -
  have h: "finished (finish_signal (sample 0 0))"
    "raised_by (finish_signal (sample 0 0)) PyRecvBegin = None"
    "raised_by (finish_signal (sample 0 0)) PyGetFinished = None"
    by (simp_all add: raised_by_none)
  show ?thesis
    using h finish_exits[OF h, of initial_state "[sample 1 10]" "[ok_tick (sample 2 50)]"]
    by simp
qed

subsection \<open>C3: one mean for each change of the time stamp\<close>

text \<open>C3: when the time stamps never decrease, the run reports one mean for each pair of
  consecutive records with different time stamps, in order, labelled with the earlier time
  stamp, and that mean is the arithmetic mean of the downlink samples of exactly the records
  of the run that carry this time stamp. Time stamps are compared by equality.\<close>

theorem window_means:
  assumes "sorted (map now_sec ds)"
  shows "means_of (fst (script (map ok_tick ds @ [finish_signal d']))) =
           map (\<lambda>(a, b). (now_sec a,
                  mean (map dl_tp (filter (\<lambda>x. now_sec x = now_sec a) ds))))
               (filter (\<lambda>(a, b). now_sec a \<noteq> now_sec b) (zip ds (tl ds)))"
proof (cases ds)
  case Nil
  then show ?thesis by (simp add: means_of_script loop_finish_cons)
next
  case (Cons d0 ds')
  have first: "\<not> closes initial_state d0" by (simp add: closes_def initial_state_def)
  have "means_of (fst (loop (after_tick initial_state d0) (map ok_tick ds' @ [finish_signal d']))) =
           map (\<lambda>(a, b). (now_sec a,
                  mean (map dl_tp (filter (\<lambda>x. now_sec x = now_sec a) ([d0] @ ds')))))
               (filter (\<lambda>(a, b). now_sec a \<noteq> now_sec b) (zip (last [d0] # ds') ds'))"
    using assms Cons
    by (intro window_means_from) (simp_all add: initial_state_def)
  then show ?thesis using Cons first
    by (simp add: means_of_script loop_ok_cons means_of_append means_of_tick_events)
qed

theorem window_means_witness:
  "sorted (map now_sec [sample 1 10, sample 1 20, sample 1 30, sample 2 50, sample 3 5])
   \<and> means_of (fst (script (map ok_tick
        [sample 1 10, sample 1 20, sample 1 30, sample 2 50, sample 3 5]
        @ [finish_signal (sample 3 5)]))) = [(1, 20), (2, 50)]"
proof -
  have h: "sorted (map now_sec [sample 1 10, sample 1 20, sample 1 30, sample 2 50, sample 3 5])"
    by (simp add: sample_def)
  show ?thesis
    using h window_means[OF h, of "sample 3 5"]
    by (simp add: sample_def mean_def)
qed

subsection \<open>C4: the directive\<close>

text \<open>C4: without a previous window mean the directive is 20; with a mean \<open>m\<close> it is
  \<open>30 - 30 * m / 100\<close> clamped to the interval from 1 to 30; in both cases it lies in that
  interval.\<close>

theorem set_ApTx_range:
  "set_ApTx None = 20
   \<and> set_ApTx (Some m) = max 1 (min 30 (30 - 30 * m / 100))
   \<and> 1 \<le> set_ApTx pm \<and> set_ApTx pm \<le> 30"
  by (cases pm) (simp_all add: set_ApTx_def)

subsection \<open>C5: scenario A\<close>

text \<open>C5, as stated, fails: in scenario A no window is closed at all. The finish signal
  leaves the loop without computing the mean of the open window.\<close>

theorem scenario_A_no_closed_window:
  "means_of (fst (script (scenario_A (sample 0 0) (sample 0 0) (sample 0 0) (sample 0 0)))) = []
   \<and> means_of (fst (script (scenario_A (sample 0 0) (sample 0 0) (sample 0 0) (sample 0 0))))
       \<noteq> [(1, 20)]"
  by (simp add: scenario_A_def run_simps)

text \<open>C5, amended: scenario A ends normally with no closed window (the samples
  \<open>[10, 20, 30]\<close> are still in the open window and \<open>prev_mean_dl\<close> is still \<open>None\<close>), and the
  directives sent and recorded for the three records are \<open>[20, 20, 20]\<close>.\<close>

theorem scenario_A_run:
  "snd (script (scenario_A a b c z)) = ExitCode 0
   \<and> means_of (fst (script (scenario_A a b c z))) = []
   \<and> written_of (fst (script (scenario_A a b c z))) = [20, 20, 20]
   \<and> map (\<lambda>dp. map_of dp ''set_ApTx'') (appended_of (fst (script (scenario_A a b c z)))) =
       [Some (FloatCell 20), Some (FloatCell 20), Some (FloatCell 20)]
   \<and> current_dl_values (state_of (snd (loop initial_state (scenario_A a b c z)))) = [10, 20, 30]
   \<and> prev_mean_dl (state_of (snd (loop initial_state (scenario_A a b c z)))) = None"
  by (simp add: scenario_A_def run_simps data_point_def)

subsection \<open>C6: scenario B\<close>

text \<open>C6: in scenario B no mean is computed during the three records at time 1; the window
  closes with mean 20 when the record at time 2 arrives, and the directive sent and recorded
  for that record is 24.\<close>

theorem scenario_B_run:
  "means_of (fst (loop initial_state (take 3 (scenario_B a b c e z)))) = []
   \<and> means_of (fst (script (scenario_B a b c e z))) = [(1, 20)]
   \<and> written_of (fst (script (scenario_B a b c e z))) = [20, 20, 20, 24]
   \<and> map (\<lambda>dp. map_of dp ''set_ApTx'') (appended_of (fst (script (scenario_B a b c e z)))) =
       [Some (FloatCell 20), Some (FloatCell 20), Some (FloatCell 20), Some (FloatCell 24)]
   \<and> snd (script (scenario_B a b c e z)) = ExitCode 0"
  by (simp add: scenario_B_def run_simps data_point_def)

subsection \<open>C7: the columns of the exported file\<close>

text \<open>C7, as stated, fails: the first column of the file is \<open>pos_x\<close>, not the station
  identifier, which is the seventh column.\<close>

theorem csv_first_column_not_station:
  "map fst (csv_writes (fst (script [ok_tick (sample 1 10), finish_signal (sample 1 10)])))
     = [[''pos_x'', ''pos_y'', ''distance'', ''dl_tp'', ''ul_tp'', ''get_ApTx'', ''sta_id'',
         ''now_sec'', ''set_ApTx'']]
   \<and> map fst (csv_writes (fst (script [ok_tick (sample 1 10), finish_signal (sample 1 10)])))
     \<noteq> [[''sta_id'', ''pos_x'', ''pos_y'', ''distance'', ''dl_tp'', ''ul_tp'', ''get_ApTx'',
         ''now_sec'', ''set_ApTx'']]"
proof -
  have t: "to_csv [data_point (sample 1 10) 20] = (csv_header, [csv_row (sample 1 10) 20])"
    using to_csv_data_points[of "[(sample 1 10, 20)]"] by simp
  show ?thesis by (simp add: run_simps t csv_header_def)
qed

text \<open>C7, amended: every file written in any run has the header \<open>pos_x, pos_y, distance,
  dl_tp, ul_tp, get_ApTx, sta_id, now_sec, set_ApTx\<close>, in this order, and one row for each
  stored record, holding that record's values in the same order.\<close>

theorem csv_layout:
  assumes "tbl \<in> set (csv_writes (fst (script envs)))"
  shows "\<exists>xs. appended_of (fst (script envs)) = map (\<lambda>(d, v). data_point d v) xs
              \<and> tbl = (csv_header, map (\<lambda>(d, v). csv_row d v) xs)"
proof -
  obtain xs where xs: "appended_of (fst (script envs)) = map (\<lambda>(d, v). data_point d v) xs"
    using loop_appends[of initial_state envs] by (auto simp: appended_of_script)
  have tbl: "tbl = to_csv (appended_of (fst (script envs)))"
    and ne: "appended_of (fst (script envs)) \<noteq> []"
    using assms script_csv_writes[of envs] by (auto split: if_splits)
  have "xs \<noteq> []" using ne xs by auto
  then show ?thesis using tbl xs to_csv_data_points by auto
qed

theorem csv_layout_witness:
  "(csv_header, [csv_row (sample 1 10) 20])
     \<in> set (csv_writes (fst (script [ok_tick (sample 1 10), finish_signal (sample 1 10)])))
   \<and> (\<exists>xs. appended_of (fst (script [ok_tick (sample 1 10), finish_signal (sample 1 10)])) =
             map (\<lambda>(d, v). data_point d v) xs
           \<and> (csv_header, [csv_row (sample 1 10) 20]) =
               (csv_header, map (\<lambda>(d, v). csv_row d v) xs))"
proof -
  have t: "to_csv [data_point (sample 1 10) 20] = (csv_header, [csv_row (sample 1 10) 20])"
    using to_csv_data_points[of "[(sample 1 10, 20)]"] by simp
  have h: "(csv_header, [csv_row (sample 1 10) 20])
     \<in> set (csv_writes (fst (script [ok_tick (sample 1 10), finish_signal (sample 1 10)])))"
    by (simp add: run_simps t)
  show ?thesis using h csv_layout[OF h] by blast
qed

subsection \<open>C8: empty windows and regressing time stamps\<close>

text \<open>C8, as stated, fails: when the time stamp regresses (third record of the run below)
  the open window is closed like at any other change, and the directive is computed from
  its mean (50, directive 15), not from the mean known before (10, directive 27).\<close>

theorem regress_uses_new_mean:
  "written_of (fst (script regress_run)) = [20, 27, 15]
   \<and> written_of (fst (script regress_run)) \<noteq> [20, 27, 27]"
  by (simp add: regress_run_def run_simps sample_def)

text \<open>C8, amended: a pass in which no call raises never fails and the loop goes on. The
  directive is computed from the mean known before when the time stamp is unchanged or the
  open window is empty; at any change of the time stamp with a non-empty window, a
  regression included, it is computed from the mean of the window just closed, which becomes
  the known mean.\<close>

theorem tick_never_fails:
  "snd (iteration st (ok_tick d)) = Continue (after_tick st d)
   \<and> written_of (fst (iteration st (ok_tick d))) =
       [set_ApTx (if now_sec d = prev_now_sec st \<or> current_dl_values st = []
                  then prev_mean_dl st
                  else Some (mean (current_dl_values st)))]
   \<and> prev_mean_dl (after_tick st d) =
       (if now_sec d = prev_now_sec st \<or> current_dl_values st = []
        then prev_mean_dl st
        else Some (mean (current_dl_values st)))"
  by (simp add: iteration_ok written_of_tick_events known_mean_def closes_def)

subsection \<open>C9: the directive recorded is the directive sent\<close>

text \<open>C9: in a pass that completes, exactly one record is stored and exactly one directive is
  written to the channel, and the \<open>set_ApTx\<close> entry of the record is that directive.\<close>

theorem stored_is_sent:
  assumes "iteration st env = (es, Continue st')"
  shows "map (\<lambda>dp. map_of dp ''set_ApTx'') (appended_of es)
           = map (\<lambda>v. Some (FloatCell v)) (written_of es)
         \<and> length (written_of es) = 1
         \<and> data_store st' = data_store st @ appended_of es"
proof -
  obtain es1 r where rp: "recv_phase env = (es1, r)" by (cases "recv_phase env")
  have r: "appended_of es1 = []" "written_of es1 = []"
    using only_calls[OF recv_phase_shape[of env]] rp by simp_all
  show ?thesis
  proof (cases r)
    case (Inl e)
    then show ?thesis using rp assms by (simp add: iteration_def)
  next
    case (Inr od)
    show ?thesis
    proof (cases od)
      case None
      then show ?thesis using Inr rp assms by (simp add: iteration_def)
    next
      case (Some d)
      let ?v = "set_ApTx (known_mean st d)"
      obtain es3 r3 where sp: "send_phase env ?v = (es3, r3)"
        by (cases "send_phase env ?v")
      show ?thesis
      proof (cases r3)
        case None
        have s: "appended_of es3 = []" "written_of es3 = [?v]"
          using send_phase_shape(1)[of env ?v] send_phase_written[of env ?v es3] sp None
          by simp_all
        have "es = es1 @ ((if closes st d
                 then [MeanDL (prev_now_sec st) (mean (current_dl_values st))] else [])
                 @ [Append (data_point d ?v)]) @ es3" and "st' = after_tick st d"
          using assms Some Inr rp sp None by (simp_all add: iteration_def analyse_eq)
        then show ?thesis using r s
          by (simp add: appended_of_append written_of_append data_point_def)
      next
        case (Some e)
        then show ?thesis using assms \<open>od = Some d\<close> Inr rp sp
          by (simp add: iteration_def analyse_eq)
      qed
    qed
  qed
qed

theorem stored_is_sent_witness:
  "iteration initial_state (ok_tick (sample 1 10)) =
     (tick_events initial_state (sample 1 10), Continue (after_tick initial_state (sample 1 10)))
   \<and> map (\<lambda>dp. map_of dp ''set_ApTx'') (appended_of (tick_events initial_state (sample 1 10)))
       = [Some (FloatCell 20)]
   \<and> written_of (tick_events initial_state (sample 1 10)) = [20]"
proof -
  have h: "iteration initial_state (ok_tick (sample 1 10)) =
     (tick_events initial_state (sample 1 10), Continue (after_tick initial_state (sample 1 10)))"
    by (rule iteration_ok)
  have w: "written_of (tick_events initial_state (sample 1 10)) = [20]"
    by (simp add: run_simps)
  show ?thesis using h w stored_is_sent[OF h] by simp
qed

subsection \<open>C10: the first pass\<close>

text \<open>C10: the initial window time stamp is \<open>- 1\<close> and the initial window is empty; the first
  pass of a run reports no mean, whatever the simulator does; a first time stamp equal to
  \<open>- 1\<close> leaves the window time stamp alone and adds the sample to the window, any other one
  becomes the window time stamp of a window holding just this sample.\<close>

theorem first_tick_no_mean:
  "prev_now_sec initial_state = - 1
   \<and> current_dl_values initial_state = []
   \<and> means_of (fst (iteration initial_state env)) = []
   \<and> window_update initial_state d =
       Inr ([], if now_sec d = - 1
                then initial_state\<lparr>current_dl_values := [dl_tp d]\<rparr>
                else initial_state\<lparr>prev_now_sec := now_sec d, current_dl_values := [dl_tp d]\<rparr>)"
  using iteration_means_initial[of env]
  by (simp add: window_update_def initial_state_def)

end
